theory Spec2Isabelle
  imports Complex_Main
begin

section \<open>Values of the numeric libraries\<close>

text \<open>
  The analyzer computes on NumPy \<open>float64\<close> values.  A value is modelled as a real
  number or one of the three IEEE special values; finite arithmetic is exact (no
  rounding, no overflow), and zero carries no sign (it behaves as \<open>+0.0\<close>).  NumPy and
  pandas never raise on a division by zero or on a domain error: they return
  \<open>inf\<close>, \<open>-inf\<close> or \<open>nan\<close>, which is what the operations below do.
\<close>

datatype float64 = Fin real | PInf | NInf | NaN

fun np_neg :: "float64 \<Rightarrow> float64" where
  "np_neg (Fin a) = Fin (- a)"
| "np_neg PInf = NInf"
| "np_neg NInf = PInf"
| "np_neg NaN = NaN"

fun np_add :: "float64 \<Rightarrow> float64 \<Rightarrow> float64" where
  "np_add NaN _ = NaN"
| "np_add _ NaN = NaN"
| "np_add (Fin a) (Fin b) = Fin (a + b)"
| "np_add (Fin a) y = y"
| "np_add x (Fin b) = x"
| "np_add PInf PInf = PInf"
| "np_add NInf NInf = NInf"
| "np_add _ _ = NaN"

definition np_sub :: "float64 \<Rightarrow> float64 \<Rightarrow> float64" where
  "np_sub x y = np_add x (np_neg y)"

definition inf_of_sign :: "real \<Rightarrow> float64" where
  "inf_of_sign s = (if s = 0 then NaN else if 0 < s then PInf else NInf)"

fun np_mul :: "float64 \<Rightarrow> float64 \<Rightarrow> float64" where
  "np_mul NaN _ = NaN"
| "np_mul _ NaN = NaN"
| "np_mul (Fin a) (Fin b) = Fin (a * b)"
| "np_mul (Fin a) PInf = inf_of_sign a"
| "np_mul (Fin a) NInf = inf_of_sign (- a)"
| "np_mul PInf (Fin b) = inf_of_sign b"
| "np_mul NInf (Fin b) = inf_of_sign (- b)"
| "np_mul PInf PInf = PInf"
| "np_mul NInf NInf = PInf"
| "np_mul _ _ = NInf"

fun np_div :: "float64 \<Rightarrow> float64 \<Rightarrow> float64" where
  "np_div NaN _ = NaN"
| "np_div _ NaN = NaN"
| "np_div (Fin a) (Fin b) = (if b = 0 then inf_of_sign a else Fin (a / b))"
| "np_div (Fin a) _ = Fin 0"
| "np_div PInf (Fin b) = (if b < 0 then NInf else PInf)"
| "np_div NInf (Fin b) = (if b < 0 then PInf else NInf)"
| "np_div _ _ = NaN"

fun np_sqrt :: "float64 \<Rightarrow> float64" where
  "np_sqrt (Fin a) = (if a < 0 then NaN else Fin (sqrt a))"
| "np_sqrt PInf = PInf"
| "np_sqrt _ = NaN"

fun np_log :: "float64 \<Rightarrow> float64" where
  "np_log (Fin a) = (if a < 0 then NaN else if a = 0 then NInf else Fin (ln a))"
| "np_log PInf = PInf"
| "np_log _ = NaN"

fun np_abs :: "float64 \<Rightarrow> float64" where
  "np_abs (Fin a) = Fin \<bar>a\<bar>"
| "np_abs NaN = NaN"
| "np_abs _ = PInf"

text \<open>The comparison \<open>x <= y\<close> of two values; every comparison with \<open>nan\<close> is false.\<close>

fun np_le :: "float64 \<Rightarrow> float64 \<Rightarrow> bool" where
  "np_le NaN _ = False"
| "np_le _ NaN = False"
| "np_le (Fin a) (Fin b) = (a \<le> b)"
| "np_le NInf _ = True"
| "np_le _ PInf = True"
| "np_le _ _ = False"

subsection \<open>The standard normal distribution function\<close>

text \<open>
  \<open>scipy.stats.norm.cdf\<close> is the standard normal cumulative distribution function
  \<open>\<Phi>\<close>.  It is defined here from the power series of
  \<open>\<integral>\<^sub>0\<^sup>x exp (- t\<^sup>2) dt = \<Sum>k. (-1)^k x^(2k+1) / (k! (2k+1))\<close>, so that
  \<open>\<Phi> x = 1/2 + (\<integral>\<^sub>0\<^sup>(x / sqrt 2) exp (- t\<^sup>2) dt) / sqrt pi\<close>.
\<close>

definition gauss_coeff :: "nat \<Rightarrow> real" where
  "gauss_coeff n =
     (if odd n then (- 1) ^ (n div 2) / (fact (n div 2) * real n) else 0)"

definition gauss_integral :: "real \<Rightarrow> real" where
  "gauss_integral x = (\<Sum>n. gauss_coeff n * x ^ n)"

definition Phi :: "real \<Rightarrow> real" where
  "Phi x = 1 / 2 + gauss_integral (x / sqrt 2) / sqrt pi"

fun norm_cdf :: "float64 \<Rightarrow> float64" where
  "norm_cdf (Fin x) = Fin (Phi x)"
| "norm_cdf PInf = Fin 1"
| "norm_cdf NInf = Fin 0"
| "norm_cdf NaN = NaN"

section \<open>pandas series\<close>

text \<open>
  A series of \<open>float64\<close> values is a list.  \<open>pct_change\<close> puts \<open>nan\<close> first and then
  \<open>cur / prev - 1\<close> for each pair of neighbours; \<open>dropna\<close> removes the \<open>nan\<close> entries.
  The reductions skip \<open>nan\<close> entries, and give \<open>nan\<close> where too few values are left:
  none for \<open>mean\<close>, \<open>max\<close> and \<open>min\<close>, fewer than two for \<open>std\<close>, whose divisor is the
  number of values minus one.
\<close>

fun pct_change :: "real list \<Rightarrow> float64 list" where
  "pct_change [] = []"
| "pct_change (p # ps) =
     NaN # map (\<lambda>(prev, cur). np_sub (np_div (Fin cur) (Fin prev)) (Fin 1)) (zip (p # ps) ps)"

definition dropna :: "float64 list \<Rightarrow> float64 list" where
  "dropna xs = filter (\<lambda>x. x \<noteq> NaN) xs"

definition np_sum :: "float64 list \<Rightarrow> float64" where
  "np_sum xs = foldl np_add (Fin 0) xs"

definition series_mean :: "float64 list \<Rightarrow> float64" where
  "series_mean xs =
     (let vs = dropna xs in
      if vs = [] then NaN else np_div (np_sum vs) (Fin (real (length vs))))"

definition series_std :: "float64 list \<Rightarrow> float64" where
  "series_std xs =
     (let vs = dropna xs; n = length vs in
      if n \<le> 1 then NaN
      else
        let avg = np_div (np_sum vs) (Fin (real n));
            sqr = map (\<lambda>v. let d = np_sub avg v in np_mul d d) vs
        in np_sqrt (np_div (np_sum sqr) (Fin (real n - 1))))"

definition np_max :: "float64 \<Rightarrow> float64 \<Rightarrow> float64" where
  "np_max x y = (if np_le x y then y else x)"

definition np_min :: "float64 \<Rightarrow> float64 \<Rightarrow> float64" where
  "np_min x y = (if np_le y x then y else x)"

definition series_max :: "float64 list \<Rightarrow> float64" where
  "series_max xs = (case dropna xs of [] \<Rightarrow> NaN | v # vs \<Rightarrow> foldl np_max v vs)"

definition series_min :: "float64 list \<Rightarrow> float64" where
  "series_min xs = (case dropna xs of [] \<Rightarrow> NaN | v # vs \<Rightarrow> foldl np_min v vs)"

section \<open>The analyzer\<close>

text \<open>
  \<open>analyze_option\<close> fails where Python raises: \<open>IndexError\<close> from \<open>.iloc[-1]\<close> on an
  empty frame, and whatever exception the call into the market-data library raises,
  which propagates unchanged (\<open>FetchError\<close> carries its class name).
\<close>

datatype error = IndexError | FetchError string

text \<open>\<open>hist['Close'].iloc[-1]\<close>\<close>

definition iloc_last :: "real list \<Rightarrow> error + real" where
  "iloc_last closes = (if closes = [] then Inl IndexError else Inr (last closes))"

text \<open>
  Lines 22 to 26, ``calculate price movement statistics'': the volatility, the average
  daily move, the largest daily gain and the largest daily loss of the closing prices.
\<close>

definition price_movement_statistics ::
  "real list \<Rightarrow> float64 \<times> float64 \<times> float64 \<times> float64" where
  "price_movement_statistics closes =
     (let daily_returns = dropna (pct_change closes);
          volatility = np_mul (series_std daily_returns) (np_sqrt (Fin 252));
          avg_daily_move = series_mean (map np_abs daily_returns);
          max_daily_gain = series_max daily_returns;
          max_daily_loss = series_min daily_returns
      in (volatility, avg_daily_move, max_daily_gain, max_daily_loss))"

text \<open>Lines 29 to 34, ``calculate probability metrics''.\<close>

definition probability_metrics ::
  "real \<Rightarrow> real \<Rightarrow> string \<Rightarrow> real \<Rightarrow> float64 \<Rightarrow> float64" where
  "probability_metrics strike_price days_to_expiry option_type current_price volatility =
     (let time_to_expiry = days_to_expiry / 365;
          std_dev = np_mul volatility (np_sqrt (Fin time_to_expiry))
      in if option_type = ''call''
         then np_sub (Fin 1)
                (norm_cdf (np_div (np_log (np_div (Fin strike_price) (Fin current_price))) std_dev))
         else norm_cdf (np_div (np_log (np_div (Fin strike_price) (Fin current_price))) std_dev))"

subsection \<open>The probability metrics in float64\<close>











record analysis =
  ticker :: string
  current_price :: real
  strike_price :: real
  days_to_expiry :: real
  volatility :: float64
  avg_daily_move :: float64
  max_daily_gain :: float64
  max_daily_loss :: float64
  prob_profit :: float64
  investment_amount :: real
  option_type :: string

text \<open>
  \<open>analyze_option\<close>.  The first argument is the market-data library: what
  \<open>yf.Ticker(ticker).history(period='3mo')\<close> does for a ticker, either raising or
  returning a frame, of which only the column of closing prices is read.  Printing
  and plotting do not change the returned record and are left out.
\<close>

definition analyze_option ::
  "(string \<Rightarrow> error + real list) \<Rightarrow> string \<Rightarrow> real \<Rightarrow> real \<Rightarrow> string \<Rightarrow> real \<Rightarrow> error + analysis" where
  "analyze_option history tk strike days otype amount =
     (case history tk of
        Inl e \<Rightarrow> Inl e
      | Inr closes \<Rightarrow>
          (case iloc_last closes of
             Inl e \<Rightarrow> Inl e
           | Inr cur \<Rightarrow>
               (case price_movement_statistics closes of
                  (vol, avg_move, max_gain, max_loss) \<Rightarrow>
                    Inr \<lparr> ticker = tk,
                          current_price = cur,
                          strike_price = strike,
                          days_to_expiry = days,
                          volatility = vol,
                          avg_daily_move = avg_move,
                          max_daily_gain = max_gain,
                          max_daily_loss = max_loss,
                          prob_profit = probability_metrics strike days otype cur vol,
                          investment_amount = amount,
                          option_type = otype \<rparr>)))"

section \<open>The quantities of the specification\<close>

text \<open>
  The return series as the specification words it: \<open>return[i] = price[i] / price[i-1] - 1\<close>
  for \<open>i = 1 .. n-1\<close>; the sample standard deviation with divisor \<open>n - 1\<close>; the mean.
\<close>

definition return_series :: "real list \<Rightarrow> real list" where
  "return_series ps = map (\<lambda>i. ps ! i / ps ! (i - 1) - 1) [1..<length ps]"

definition mean :: "real list \<Rightarrow> real" where
  "mean xs = sum_list xs / real (length xs)"

definition sample_std :: "real list \<Rightarrow> real" where
  "sample_std xs = sqrt ((\<Sum>x\<leftarrow>xs. (x - mean xs)\<^sup>2) / (real (length xs) - 1))"

section \<open>The distribution function\<close>

subsection \<open>The power series and its derivative\<close>

text \<open>
  The series converges everywhere, vanishes at 0, is odd, and its derivative is
  \<open>exp (- x\<^sup>2)\<close>: it is the integral of \<open>exp (- t\<^sup>2)\<close> from 0 to \<open>x\<close>.
\<close>

lemma gauss_coeff_odd: "gauss_coeff (Suc (2 * k)) = (- 1) ^ k / (fact k * real (Suc (2 * k)))"
  by (simp add: gauss_coeff_def)

lemma gauss_coeff_even: "even n \<Longrightarrow> gauss_coeff n = 0"
  by (simp add: gauss_coeff_def)

lemma strict_mono_odd: "strict_mono (\<lambda>k::nat. 2 * k + 1)"
  by (simp add: strict_mono_def)

lemma strict_mono_double: "strict_mono (\<lambda>k::nat. 2 * k)"
  by (simp add: strict_mono_def)

lemma not_range_odd: "n \<notin> range (\<lambda>k::nat. 2 * k + 1) \<Longrightarrow> even n"
  by (metis oddE rangeI)

lemma not_range_double: "n \<notin> range (\<lambda>k::nat. 2 * k) \<Longrightarrow> odd n"
  by (metis evenE rangeI)

lemma summable_gauss: "summable (\<lambda>n. gauss_coeff n * x ^ n)"
proof -
  have "summable (\<lambda>k. gauss_coeff (2 * k + 1) * x ^ (2 * k + 1))"
  proof (rule summable_comparison_test')
    show "summable (\<lambda>k. \<bar>x\<bar> * ((x\<^sup>2) ^ k /\<^sub>R fact k))"
      by (intro summable_mult summable_exp_generic)
  next
    fix k :: nat
    have "norm (gauss_coeff (2 * k + 1) * x ^ (2 * k + 1))
            = \<bar>x\<bar> * (x\<^sup>2) ^ k / (fact k * real (Suc (2 * k)))"
      by (simp add: gauss_coeff_odd abs_mult power_abs power_mult)
    also have "\<dots> \<le> \<bar>x\<bar> * (x\<^sup>2) ^ k / fact k"
      by (intro divide_left_mono mult_nonneg_nonneg) (simp_all add: mult_le_cancel_left1)
    also have "\<dots> = \<bar>x\<bar> * ((x\<^sup>2) ^ k /\<^sub>R fact k)"
      by (simp add: divide_inverse)
    finally show "norm (gauss_coeff (2 * k + 1) * x ^ (2 * k + 1)) \<le> \<bar>x\<bar> * ((x\<^sup>2) ^ k /\<^sub>R fact k)" .
  qed
  moreover have "gauss_coeff n * x ^ n = 0" if "n \<notin> range (\<lambda>k::nat. 2 * k + 1)" for n
    using not_range_odd [OF that] by (simp add: gauss_coeff_even)
  ultimately show ?thesis
    using summable_mono_reindex [OF strict_mono_odd, of "\<lambda>n. gauss_coeff n * x ^ n"]
    by blast
qed

lemma diffs_gauss_coeff:
  "diffs gauss_coeff n = (if even n then (- 1) ^ (n div 2) / fact (n div 2) else 0)"
  by (auto simp: diffs_def gauss_coeff_def elim!: evenE)

lemma diffs_gauss_sums: "(\<lambda>n. diffs gauss_coeff n * x ^ n) sums exp (- (x\<^sup>2))"
proof -
  have "(\<lambda>k. (- (x\<^sup>2)) ^ k /\<^sub>R fact k) sums exp (- (x\<^sup>2))"
    by (rule exp_converges)
  moreover have "(- (x\<^sup>2)) ^ k /\<^sub>R fact k = diffs gauss_coeff (2 * k) * x ^ (2 * k)" for k
  proof -
    have "diffs gauss_coeff (2 * k) * x ^ (2 * k) = (- 1) ^ k / fact k * (x\<^sup>2) ^ k"
      unfolding power_mult by (simp add: diffs_gauss_coeff)
    moreover have "(- (x\<^sup>2)) ^ k /\<^sub>R fact k = (- 1) ^ k / fact k * (x\<^sup>2) ^ k"
      by (simp add: power_minus [of "x\<^sup>2"] divide_inverse mult_ac)
    ultimately show ?thesis by simp
  qed
  ultimately have "(\<lambda>k. diffs gauss_coeff (2 * k) * x ^ (2 * k)) sums exp (- (x\<^sup>2))"
    by simp
  moreover have "diffs gauss_coeff n * x ^ n = 0" if "n \<notin> range (\<lambda>k::nat. 2 * k)" for n
    using not_range_double [OF that] by (simp add: diffs_gauss_coeff)
  ultimately show ?thesis
    using sums_mono_reindex [OF strict_mono_double, of "\<lambda>n. diffs gauss_coeff n * x ^ n"]
    by blast
qed

lemma DERIV_gauss_integral: "DERIV gauss_integral x :> exp (- (x\<^sup>2))"
proof -
  have "DERIV (\<lambda>x. \<Sum>n. gauss_coeff n * x ^ n) x :> (\<Sum>n. diffs gauss_coeff n * x ^ n)"
    by (rule termdiffs_strong_converges_everywhere) (rule summable_gauss)
  moreover have "(\<Sum>n. diffs gauss_coeff n * x ^ n) = exp (- (x\<^sup>2))"
    using diffs_gauss_sums by (rule sums_unique [symmetric])
  moreover have "gauss_integral = (\<lambda>x. \<Sum>n. gauss_coeff n * x ^ n)"
    by (rule ext) (simp add: gauss_integral_def)
  ultimately show ?thesis by simp
qed

lemma gauss_integral_0: "gauss_integral 0 = 0"
  by (simp add: gauss_integral_def gauss_coeff_even)

lemma gauss_integral_minus: "gauss_integral (- x) = - gauss_integral x"
proof -
  have "gauss_coeff n * (- x) ^ n = - (gauss_coeff n * x ^ n)" for n
    by (cases "even n") (simp_all add: gauss_coeff_even)
  then have "gauss_integral (- x) = (\<Sum>n. - (gauss_coeff n * x ^ n))"
    by (simp add: gauss_integral_def)
  also have "\<dots> = - gauss_integral x"
    unfolding gauss_integral_def by (rule suminf_minus) (rule summable_gauss)
  finally show ?thesis .
qed

subsection \<open>The bound \<open>sqrt pi / 2\<close>\<close>

text \<open>
  A function with a decreasing derivative lies between the right and the left
  sums of the derivative.  With \<open>t j = j / n\<close>, the function
  \<open>(gauss_integral v)\<^sup>2 + (\<Sum>j<n. exp (- v\<^sup>2 (1 + (t j)\<^sup>2)) / (1 + (t j)\<^sup>2)) / n\<close>
  therefore decreases for \<open>v \<ge> 0\<close>, and its value at 0 is a left sum of
  \<open>1 / (1 + t\<^sup>2)\<close> on the unit interval, which exceeds \<open>arctan 1 = pi / 4\<close> by at
  most \<open>1 / (2 n)\<close>.
\<close>

lemma step_bounds:
  fixes F f :: "real \<Rightarrow> real"
  assumes "0 \<le> a" "a \<le> b"
    and D: "\<And>x. 0 \<le> x \<Longrightarrow> DERIV F x :> f x"
    and anti: "\<And>x y. 0 \<le> x \<Longrightarrow> x \<le> y \<Longrightarrow> f y \<le> f x"
  shows "(b - a) * f b \<le> F b - F a \<and> F b - F a \<le> (b - a) * f a"
proof (cases "a = b")
  case True
  then show ?thesis by simp
next
  case False
  then have "a < b" using assms(2) by simp
  then obtain z where z: "a < z" "z < b" "F b - F a = (b - a) * f z"
    using MVT2 [of a b F f] D assms(1) by (metis order_trans)
  have "f b \<le> f z" "f z \<le> f a"
    using z(1,2) assms(1) by (auto intro!: anti)
  then show ?thesis
    using \<open>a < b\<close> by (simp add: z(3))
qed

lemma riemann_bounds:
  fixes F f :: "real \<Rightarrow> real"
  assumes "0 \<le> h"
    and D: "\<And>x. 0 \<le> x \<Longrightarrow> DERIV F x :> f x"
    and anti: "\<And>x y. 0 \<le> x \<Longrightarrow> x \<le> y \<Longrightarrow> f y \<le> f x"
  shows "h * (\<Sum>j<k. f (real (Suc j) * h)) \<le> F (real k * h) - F 0
       \<and> F (real k * h) - F 0 \<le> h * (\<Sum>j<k. f (real j * h))"
proof (induction k)
  case 0
  then show ?case by simp
next
  case (Suc k)
  have "0 \<le> real k * h" "real k * h \<le> real (Suc k) * h"
    using assms(1) by (simp_all add: mult_right_mono)
  from step_bounds [OF this D anti]
  have "h * f (real (Suc k) * h) \<le> F (real (Suc k) * h) - F (real k * h)"
    "F (real (Suc k) * h) - F (real k * h) \<le> h * f (real k * h)"
    by (simp_all add: algebra_simps)
  with Suc.IH show ?case
    by (simp add: algebra_simps)
qed

lemma exp_neg_sq_antimono:
  fixes x y :: real
  assumes "0 \<le> x" "x \<le> y"
  shows "exp (- (y\<^sup>2)) \<le> exp (- (x\<^sup>2))"
proof -
  have "x\<^sup>2 \<le> y\<^sup>2" using assms by (rule power_mono [OF _ _, rotated]) 
  then show ?thesis by simp
qed

lemma inverse_sq_antimono:
  fixes x y :: real
  assumes "0 \<le> x" "x \<le> y"
  shows "inverse (1 + y\<^sup>2) \<le> inverse (1 + x\<^sup>2)"
proof -
  have "x\<^sup>2 \<le> y\<^sup>2" using assms by (rule power_mono [OF _ _, rotated])
  moreover have "0 < 1 + x\<^sup>2" by (simp add: add_pos_nonneg)
  ultimately show ?thesis by (intro le_imp_inverse_le) simp_all
qed

lemma gauss_integral_left_sum:
  assumes "0 \<le> v" "0 < n"
  shows "gauss_integral v \<le> v / real n * (\<Sum>j<n. exp (- ((real j * (v / real n))\<^sup>2)))"
proof -
  have "0 \<le> v / real n" using assms by simp
  from riemann_bounds [OF this, of gauss_integral "\<lambda>t. exp (- (t\<^sup>2))" n]
  have "gauss_integral (real n * (v / real n)) - gauss_integral 0
          \<le> v / real n * (\<Sum>j<n. exp (- ((real j * (v / real n))\<^sup>2)))"
    using DERIV_gauss_integral exp_neg_sq_antimono by blast
  moreover have "real n * (v / real n) = v" using assms(2) by simp
  ultimately show ?thesis by (simp add: gauss_integral_0)
qed

lemma arctan_right_sum:
  assumes "0 < n"
  shows "(\<Sum>j<n. inverse (1 + (real (Suc j) / real n)\<^sup>2)) / real n \<le> pi / 4"
proof -
  have "(0::real) \<le> 1 / real n" by simp
  from riemann_bounds [OF this, of arctan "\<lambda>t. inverse (1 + t\<^sup>2)" n]
  have "1 / real n * (\<Sum>j<n. inverse (1 + (real (Suc j) * (1 / real n))\<^sup>2))
          \<le> arctan (real n * (1 / real n)) - arctan 0"
    using DERIV_arctan inverse_sq_antimono by blast
  moreover have "real n * (1 / real n) = 1" using assms by simp
  ultimately show ?thesis by (simp add: arctan_one)
qed

lemma arctan_left_sum:
  assumes "0 < n"
  shows "(\<Sum>j<n. inverse (1 + (real j / real n)\<^sup>2)) / real n \<le> pi / 4 + 1 / (2 * real n)"
proof -
  let ?g = "\<lambda>j. inverse (1 + (real j / real n)\<^sup>2)"
  have "(\<Sum>j<n. ?g j) + ?g n = ?g 0 + (\<Sum>j<n. ?g (Suc j))"
    using sum.lessThan_Suc [of ?g n] sum.lessThan_Suc_shift [of ?g n] by simp
  moreover have "?g n = 1 / 2" "?g 0 = 1" using assms by simp_all
  ultimately have "(\<Sum>j<n. ?g j) = (\<Sum>j<n. ?g (Suc j)) + 1 / 2" by simp
  then have "(\<Sum>j<n. ?g j) / real n = (\<Sum>j<n. ?g (Suc j)) / real n + 1 / (2 * real n)"
    by (simp add: add_divide_distrib)
  then show ?thesis
    using arctan_right_sum [OF assms] by simp
qed

lemma gauss_integral_sq_le_approx:
  assumes "0 \<le> u" "0 < n"
  shows "(gauss_integral u)\<^sup>2 \<le> pi / 4 + 1 / (2 * real n)"
proof -
  define c where "c j = 1 + (real j / real n)\<^sup>2" for j
  define H where "H v = (\<Sum>j<n. exp (- (v\<^sup>2) * c j) / c j) / real n" for v
  define F where "F v = (gauss_integral v)\<^sup>2 + H v" for v
  have c_pos: "0 < c j" for j
    by (simp add: c_def add_pos_nonneg)
  have split: "exp (- (v\<^sup>2) * c j) = exp (- (v\<^sup>2)) * exp (- ((real j * (v / real n))\<^sup>2))" for v j
    by (simp add: c_def power_mult_distrib power_divide algebra_simps flip: exp_add)
  have D: "DERIV F v :> 2 * gauss_integral v * exp (- (v\<^sup>2))
                + (\<Sum>j<n. - (2 * v) * exp (- (v\<^sup>2) * c j)) / real n" for v
    unfolding F_def H_def
    using c_pos [THEN less_imp_neq, THEN not_sym] assms(2)
    by (auto intro!: derivative_eq_intros DERIV_gauss_integral simp: power2_eq_square mult_ac)
  have nonpos: "2 * gauss_integral v * exp (- (v\<^sup>2))
                + (\<Sum>j<n. - (2 * v) * exp (- (v\<^sup>2) * c j)) / real n \<le> 0" if "0 \<le> v" for v
  proof -
    let ?S = "\<Sum>j<n. exp (- ((real j * (v / real n))\<^sup>2))"
    have "(\<Sum>j<n. - (2 * v) * exp (- (v\<^sup>2) * c j))
            = (\<Sum>j<n. - (2 * v) * exp (- (v\<^sup>2)) * exp (- ((real j * (v / real n))\<^sup>2)))"
      by (rule sum.cong) (simp_all only: split mult.assoc)
    also have "\<dots> = - (2 * v) * exp (- (v\<^sup>2)) * ?S"
      by (simp only: sum_distrib_left)
    finally have "2 * gauss_integral v * exp (- (v\<^sup>2))
                + (\<Sum>j<n. - (2 * v) * exp (- (v\<^sup>2) * c j)) / real n
             = 2 * gauss_integral v * exp (- (v\<^sup>2))
                + (- (2 * v) * exp (- (v\<^sup>2)) * ?S) / real n"
      by (simp only:)
    then have "2 * gauss_integral v * exp (- (v\<^sup>2))
                + (\<Sum>j<n. - (2 * v) * exp (- (v\<^sup>2) * c j)) / real n
             = 2 * exp (- (v\<^sup>2)) * (gauss_integral v - v / real n * ?S)"
      by (simp add: algebra_simps)
    moreover have "gauss_integral v - v / real n * ?S \<le> 0"
      using gauss_integral_left_sum [OF that assms(2)] by simp
    ultimately show ?thesis
      by (simp add: mult_le_0_iff)
  qed
  have "F u \<le> F 0"
    by (rule DERIV_nonpos_imp_nonincreasing [OF assms(1)]) (use D nonpos in blast)
  moreover have "0 \<le> H u"
    unfolding H_def using c_pos by (intro divide_nonneg_nonneg sum_nonneg) (simp_all add: less_imp_le)
  moreover have "F 0 = (\<Sum>j<n. inverse (1 + (real j / real n)\<^sup>2)) / real n"
    by (simp add: F_def H_def gauss_integral_0 c_def inverse_eq_divide)
  ultimately have "(gauss_integral u)\<^sup>2 \<le> (\<Sum>j<n. inverse (1 + (real j / real n)\<^sup>2)) / real n"
    by (simp add: F_def)
  then show ?thesis
    using arctan_left_sum [OF assms(2)] by simp
qed

lemma gauss_integral_sq_le: "(gauss_integral u)\<^sup>2 \<le> pi / 4"
proof -
  have nonneg: "(gauss_integral v)\<^sup>2 \<le> pi / 4" if "0 \<le> v" for v
  proof (rule field_le_epsilon)
    fix e :: real
    assume "0 < e"
    then obtain m where m: "inverse (real (Suc m)) < e"
      using reals_Archimedean by blast
    have "1 / (2 * real (Suc m)) \<le> inverse (real (Suc m))"
      by (simp add: field_simps)
    with gauss_integral_sq_le_approx [OF that, of "Suc m"] m
    show "(gauss_integral v)\<^sup>2 \<le> pi / 4 + e" by simp
  qed
  show ?thesis
  proof (cases "0 \<le> u")
    case True
    then show ?thesis by (rule nonneg)
  next
    case False
    then have "(gauss_integral (- u))\<^sup>2 \<le> pi / 4" by (intro nonneg) simp
    then show ?thesis by (simp add: gauss_integral_minus)
  qed
qed

lemma gauss_integral_abs_le: "\<bar>gauss_integral u\<bar> \<le> sqrt pi / 2"
proof -
  have "(gauss_integral u)\<^sup>2 \<le> (sqrt pi / 2)\<^sup>2"
    using gauss_integral_sq_le [of u] by (simp add: power_divide)
  then show ?thesis
    by (rule power2_le_imp_le [OF _ _, of "\<bar>gauss_integral u\<bar>", simplified]) simp
qed

subsection \<open>Value at 0, density, monotonicity and range\<close>

lemma Phi_0: "Phi 0 = 1 / 2"
  by (simp add: Phi_def gauss_integral_0)





lemma Phi_range: "0 \<le> Phi x \<and> Phi x \<le> 1"
proof -
  have "\<bar>gauss_integral (x / sqrt 2)\<bar> \<le> sqrt pi / 2"
    by (rule gauss_integral_abs_le)
  then have "\<bar>gauss_integral (x / sqrt 2) / sqrt pi\<bar> \<le> 1 / 2"
    by (simp add: field_simps)
  then show ?thesis
    unfolding Phi_def by linarith
qed

section \<open>The probability of profit\<close>

lemma probability_metrics_call:
  assumes "0 < cur" "0 < strike" "0 < days" "0 < vol"
  shows "probability_metrics strike days ''call'' cur (Fin vol)
           = Fin (1 - Phi (ln (strike / cur) / (vol * sqrt (days / 365))))"
proof -
  have "\<not> strike / cur < 0" "strike / cur \<noteq> 0" "cur \<noteq> 0"
    using assms by (simp_all add: not_less)
  moreover have "vol * sqrt (days / 365) \<noteq> 0" "\<not> days / 365 < 0"
    using assms by simp_all
  ultimately show ?thesis
    by (simp add: probability_metrics_def np_sub_def Let_def)
qed

lemma probability_metrics_other:
  assumes "0 < cur" "0 < strike" "0 < days" "0 < vol" "otype \<noteq> ''call''"
  shows "probability_metrics strike days otype cur (Fin vol)
           = Fin (Phi (ln (strike / cur) / (vol * sqrt (days / 365))))"
proof -
  have "\<not> strike / cur < 0" "strike / cur \<noteq> 0" "cur \<noteq> 0"
    using assms by (simp_all add: not_less)
  moreover have "vol * sqrt (days / 365) \<noteq> 0" "\<not> days / 365 < 0"
    using assms by simp_all
  ultimately show ?thesis using assms(5)
    by (simp add: probability_metrics_def Let_def)
qed


text \<open>
  Claim C1.  For a current price, a strike price, a number of days to expiry and a
  volatility that are all positive, the probability of profit is
  \<open>1 - \<Phi> (log (strike / current) / (volatility * sqrt (days / 365)))\<close> for a call and
  \<open>\<Phi> (log (strike / current) / (volatility * sqrt (days / 365)))\<close> for a put.
\<close>

theorem probability_of_profit_formula:
  assumes "0 < cur" "0 < strike" "0 < days" "0 < vol"
  shows "probability_metrics strike days ''call'' cur (Fin vol)
           = Fin (1 - Phi (ln (strike / cur) / (vol * sqrt (days / 365))))
       \<and> probability_metrics strike days ''put'' cur (Fin vol)
           = Fin (Phi (ln (strike / cur) / (vol * sqrt (days / 365))))"
  using assms by (simp add: probability_metrics_call probability_metrics_other)

theorem probability_of_profit_formula_witness:
  "(0::real) < 150 \<and> (0::real) < 170 \<and> (0::real) < 30 \<and> (0::real) < 1 / 4
   \<and> probability_metrics 170 30 ''call'' 150 (Fin (1 / 4))
       = Fin (1 - Phi (ln (170 / 150) / (1 / 4 * sqrt (30 / 365))))
   \<and> probability_metrics 170 30 ''put'' 150 (Fin (1 / 4))
       = Fin (Phi (ln (170 / 150) / (1 / 4 * sqrt (30 / 365))))"
  using probability_of_profit_formula [of 150 170 30 "1 / 4"] by simp





text \<open>
  Claim C10.  Every option type other than the string \<open>call\<close> is computed as a put:
  on valid inputs the probability is \<open>\<Phi> (log (strike / current) / (volatility * sqrt
  (days / 365)))\<close>, the value for \<open>put\<close>; no option type is rejected.
\<close>

theorem other_option_type_is_put:
  assumes "otype \<noteq> ''call''" "0 < cur" "0 < strike" "0 < days" "0 < vol"
  shows "probability_metrics strike days otype cur (Fin vol)
           = Fin (Phi (ln (strike / cur) / (vol * sqrt (days / 365))))
       \<and> probability_metrics strike days otype cur (Fin vol)
           = probability_metrics strike days ''put'' cur (Fin vol)"
  using assms by (simp add: probability_metrics_other)

theorem other_option_type_is_put_witness:
  "''straddle'' \<noteq> ''call'' \<and> (0::real) < 150 \<and> (0::real) < 170 \<and> (0::real) < 30
   \<and> (0::real) < 1 / 4
   \<and> probability_metrics 170 30 ''straddle'' 150 (Fin (1 / 4))
       = Fin (Phi (ln (170 / 150) / (1 / 4 * sqrt (30 / 365))))
   \<and> probability_metrics 170 30 ''straddle'' 150 (Fin (1 / 4))
       = probability_metrics 170 30 ''put'' 150 (Fin (1 / 4))"
proof -
  have h: "''straddle'' \<noteq> ''call''" "(0::real) < 150" "(0::real) < 170" "(0::real) < 30"
    "(0::real) < 1 / 4"
    by simp_all
  from other_option_type_is_put [OF h] h show ?thesis
    by blast
qed

text \<open>
  Claim C7.  A call at the money, with a positive volatility and a positive number of
  days to expiry, has the probability of profit \<open>1 / 2\<close> exactly.
\<close>

theorem at_the_money_call_half:
  assumes "0 < cur" "0 < days" "0 < vol"
  shows "probability_metrics cur days ''call'' cur (Fin vol) = Fin (1 / 2)"
proof -
  have "ln (cur / cur) / (vol * sqrt (days / 365)) = 0"
    using assms(1) by simp
  then show ?thesis
    using probability_metrics_call [OF assms(1) assms(1) assms(2) assms(3)]
    by (simp only: Phi_0) simp
qed

theorem at_the_money_call_half_witness:
  "(0::real) < 100 \<and> (0::real) < 30 \<and> (0::real) < 1 / 4
   \<and> probability_metrics 100 30 ''call'' 100 (Fin (1 / 4)) = Fin (1 / 2)"
proof -
  have h: "(0::real) < 100" "(0::real) < 30" "(0::real) < 1 / 4"
    by simp_all
  from at_the_money_call_half [OF h] h show ?thesis
    by blast
qed

text \<open>
  Claim C5.  On valid inputs (positive current price, strike price, days to expiry
  and volatility, option type \<open>call\<close> or \<open>put\<close>) the probability of profit is a number
  in the closed interval from 0 to 1.
\<close>

theorem probability_in_unit_interval:
  assumes "0 < cur" "0 < strike" "0 < days" "0 < vol"
    and "otype = ''call'' \<or> otype = ''put''"
  shows "\<exists>p. probability_metrics strike days otype cur (Fin vol) = Fin p \<and> 0 \<le> p \<and> p \<le> 1"
proof -
  let ?x = "ln (strike / cur) / (vol * sqrt (days / 365))"
  have r: "0 \<le> Phi ?x" "Phi ?x \<le> 1"
    using Phi_range [of ?x] by simp_all
  show ?thesis
  proof (cases "otype = ''call''")
    case True
    then have "probability_metrics strike days otype cur (Fin vol) = Fin (1 - Phi ?x)"
      using probability_metrics_call [OF assms(1-4)] by simp
    then show ?thesis using r by simp
  next
    case False
    then have "probability_metrics strike days otype cur (Fin vol) = Fin (Phi ?x)"
      using probability_metrics_other [OF assms(1-4)] by simp
    then show ?thesis using r by simp
  qed
qed

theorem probability_in_unit_interval_witness:
  "(0::real) < 150 \<and> (0::real) < 170 \<and> (0::real) < 30 \<and> (0::real) < 1 / 4
   \<and> (''call'' = ''call'' \<or> ''call'' = ''put'')
   \<and> (\<exists>p. probability_metrics 170 30 ''call'' 150 (Fin (1 / 4)) = Fin p \<and> 0 \<le> p \<and> p \<le> 1)"
proof -
  have h: "(0::real) < 150" "(0::real) < 170" "(0::real) < 30" "(0::real) < 1 / 4"
    "''call'' = ''call'' \<or> ''call'' = ''put''"
    by simp_all
  from probability_in_unit_interval [OF h] h show ?thesis
    by blast
qed

subsection \<open>Evaluation in float64\<close>




























section \<open>The analyzer and its collaborator\<close>

text \<open>
  Claim C9.  The investment amount is only recorded: two analyses that differ in
  nothing but the investment amount fail alike or return records that differ in
  nothing but the field \<open>investment_amount\<close>.
\<close>

theorem investment_amount_informational:
  "analyze_option history tk strike days otype amount'
     = map_sum id (\<lambda>r. r\<lparr>investment_amount := amount'\<rparr>)
         (analyze_option history tk strike days otype amount)"
  by (simp add: analyze_option_def split: sum.splits prod.splits)

text \<open>
  Claim C8, as stated: when the market-data collaborator supplies no price series,
  the analysis fails with the error for unavailable data.  For a ticker it does
  not know, the library returns an empty frame; the analysis then fails with
  \<open>IndexError\<close>, raised by reading the last close.
\<close>

theorem empty_frame_index_error:
  "analyze_option (\<lambda>t. Inr []) ''ZZZZ'' 170 30 ''call'' 1000 = Inl IndexError
   \<and> analyze_option (\<lambda>t. Inr []) ''ZZZZ'' 170 30 ''call'' 1000
       \<noteq> Inl (FetchError ''DataUnavailableError'')"
  by (simp add: analyze_option_def iloc_last_def)

text \<open>
  Claim C8, amended.  When the collaborator raises, the analysis fails with that same
  error; when it returns an empty series, the analysis fails with \<open>IndexError\<close>.  In
  both cases nothing is computed and no record is returned.
\<close>

theorem no_data_no_analysis:
  assumes "history tk = Inl e \<or> history tk = Inr []"
  shows "analyze_option history tk strike days otype amount
           = (case history tk of Inl e \<Rightarrow> Inl e | Inr closes \<Rightarrow> Inl IndexError)"
  using assms by (auto simp: analyze_option_def iloc_last_def)

theorem no_data_no_analysis_witness:
  "analyze_option (\<lambda>t. Inl (FetchError ''ConnectionError'')) ''AAPL'' 170 30 ''call'' 1000
     = Inl (FetchError ''ConnectionError'')
   \<and> analyze_option (\<lambda>t. Inr []) ''AAPL'' 170 30 ''call'' 1000 = Inl IndexError"
  using no_data_no_analysis [of "\<lambda>t. Inl (FetchError ''ConnectionError'')" "''AAPL''"
      "FetchError ''ConnectionError''" 170 30 "''call''" 1000]
    no_data_no_analysis [of "\<lambda>t. Inr []" "''AAPL''" IndexError 170 30 "''call''" 1000]
  by simp

section \<open>The statistics of short series\<close>

text \<open>
  Claim C4, as stated: a price series with fewer than two points makes the statistics
  computation fail.  It does not: on a single price every statistic is \<open>nan\<close>, and the
  analysis returns a record.
\<close>

theorem single_price_statistics:
  "price_movement_statistics [100] = (NaN, NaN, NaN, NaN)
   \<and> analyze_option (\<lambda>t. Inr [100]) ''AAPL'' 100 30 ''call'' 1000
      = Inr \<lparr> ticker = ''AAPL'', current_price = 100, strike_price = 100,
              days_to_expiry = 30, volatility = NaN, avg_daily_move = NaN,
              max_daily_gain = NaN, max_daily_loss = NaN, prob_profit = NaN,
              investment_amount = 1000, option_type = ''call'' \<rparr>"
  by (simp add: analyze_option_def iloc_last_def price_movement_statistics_def Let_def
      dropna_def series_std_def series_mean_def series_max_def series_min_def
      probability_metrics_def np_sub_def)

text \<open>
  Claim C4, amended.  For a price series with fewer than two points the statistics
  computation returns \<open>nan\<close> for the volatility, the average daily move, the largest
  daily gain and the largest daily loss.
\<close>

theorem short_series_statistics:
  assumes "length closes < 2"
  shows "price_movement_statistics closes = (NaN, NaN, NaN, NaN)"
proof -
  have "closes = [] \<or> (\<exists>p. closes = [p])"
    using assms by (cases closes) (auto simp: less_Suc_eq)
  then show ?thesis
    by (auto simp: price_movement_statistics_def Let_def dropna_def series_std_def
        series_mean_def series_max_def series_min_def)
qed

theorem short_series_statistics_witness:
  "length [100::real] < 2 \<and> price_movement_statistics [100] = (NaN, NaN, NaN, NaN)"
  using short_series_statistics [of "[100]"] by simp

section \<open>The statistics of a price series\<close>

text \<open>
  On a series of finite values the reductions of pandas are the sums, quotients,
  maxima and minima of real numbers.
\<close>

lemma foldl_np_add_Fin: "foldl np_add (Fin a) (map Fin xs) = Fin (a + sum_list xs)"
  by (induction xs arbitrary: a) (simp_all add: add.assoc)

lemma np_sum_Fin: "np_sum (map Fin xs) = Fin (sum_list xs)"
  by (simp add: np_sum_def foldl_np_add_Fin)

lemma dropna_Fin: "dropna (map Fin xs) = map Fin xs"
  by (induction xs) (simp_all add: dropna_def)

lemma length_return_series: "length (return_series ps) = length ps - 1"
  by (simp add: return_series_def)

lemma nth_return_series:
  "i < length ps - 1 \<Longrightarrow> return_series ps ! i = ps ! Suc i / ps ! i - 1"
  by (simp add: return_series_def)

lemma pct_change_nth:
  assumes "0 \<notin> set ps"
  shows "dropna (pct_change ps) = map Fin (return_series ps)"
proof (cases ps)
  case Nil
  then show ?thesis by (simp add: dropna_def return_series_def)
next
  case (Cons p qs)
  let ?f = "\<lambda>(prev, cur). np_sub (np_div (Fin cur) (Fin prev)) (Fin 1)"
  have len: "length qs = length ps - 1"
    using Cons by simp
  have "map ?f (zip ps qs) = map Fin (return_series ps)"
  proof (rule nth_equalityI)
    show "length (map ?f (zip ps qs)) = length (map Fin (return_series ps))"
      using len by (simp add: length_return_series)
  next
    fix i
    assume "i < length (map ?f (zip ps qs))"
    then have i: "i < length qs" "i < length ps"
      using len by simp_all
    have nz: "ps ! i \<noteq> 0"
      using assms i(2) by (metis nth_mem)
    have q: "qs ! i = ps ! Suc i"
      by (simp add: Cons)
    have "map ?f (zip ps qs) ! i = ?f (ps ! i, qs ! i)"
      using i by simp
    also have "\<dots> = Fin (ps ! Suc i / ps ! i - 1)"
      unfolding q using nz by (simp add: np_sub_def)
    also have "\<dots> = map Fin (return_series ps) ! i"
      using i(1) len by (simp add: nth_return_series length_return_series)
    finally show "map ?f (zip ps qs) ! i = map Fin (return_series ps) ! i" .
  qed
  then have "pct_change ps = NaN # map Fin (return_series ps)"
    by (simp add: Cons)
  then show ?thesis
    using dropna_Fin [of "return_series ps"] by (simp add: dropna_def)
qed

lemma series_mean_abs_Fin:
  assumes "xs \<noteq> []"
  shows "series_mean (map np_abs (map Fin xs)) = Fin (mean (map abs xs))"
proof -
  have "map np_abs (map Fin xs) = map Fin (map abs xs)" by simp
  then show ?thesis
    using assms by (simp add: series_mean_def dropna_Fin np_sum_Fin mean_def Let_def del: map_map)
qed

lemma series_std_Fin:
  assumes "2 \<le> length xs"
  shows "series_std (map Fin xs) = Fin (sample_std xs)"
proof -
  let ?n = "length xs"
  let ?ss = "\<Sum>x\<leftarrow>xs. (x - mean xs)\<^sup>2"
  have n: "\<not> ?n \<le> 1" "real ?n \<noteq> 0" "real ?n - 1 \<noteq> 0" using assms by auto
  have avg: "np_div (np_sum (map Fin xs)) (Fin (real ?n)) = Fin (mean xs)"
    using n by (simp add: np_sum_Fin mean_def)
  have "map (\<lambda>v. let d = np_sub (Fin (mean xs)) v in np_mul d d) (map Fin xs)
               = map Fin (map (\<lambda>x. (x - mean xs)\<^sup>2) xs)"
    by (simp add: np_sub_def Let_def power2_eq_square algebra_simps)
  then have sqr: "np_sum (map (\<lambda>v. let d = np_sub (Fin (mean xs)) v in np_mul d d) (map Fin xs))
               = Fin ?ss"
    by (simp only: np_sum_Fin)
  have "0 \<le> ?ss" by (rule sum_list_nonneg) auto
  moreover have "0 < real ?n - 1" using assms by simp
  ultimately have nonneg: "\<not> ?ss / (real ?n - 1) < 0"
    by (simp add: not_less)
  have "series_std (map Fin xs)
          = np_sqrt (np_div (np_sum (map (\<lambda>v. let d = np_sub (Fin (mean xs)) v in np_mul d d)
              (map Fin xs))) (Fin (real ?n - 1)))"
    unfolding series_std_def dropna_Fin Let_def length_map avg
    using n(1) by (simp only: if_False Let_def)
  also have "\<dots> = Fin (sample_std xs)"
    unfolding sqr using n(3) nonneg by (simp add: sample_std_def)
  finally show ?thesis .
qed

lemma foldl_np_max_Fin: "foldl np_max (Fin v) (map Fin vs) = Fin (Max (set (v # vs)))"
proof (induction vs arbitrary: v)
  case Nil
  then show ?case by simp
next
  case (Cons w ws)
  have "np_max (Fin v) (Fin w) = Fin (max v w)" by (simp add: np_max_def max_def)
  moreover have "Max (set (max v w # ws)) = Max (set (v # w # ws))"
    by (cases "ws = []") (simp_all add: max.assoc)
  ultimately show ?case using Cons.IH [of "max v w"] by simp
qed

lemma foldl_np_min_Fin: "foldl np_min (Fin v) (map Fin vs) = Fin (Min (set (v # vs)))"
proof (induction vs arbitrary: v)
  case Nil
  then show ?case by simp
next
  case (Cons w ws)
  have "np_min (Fin v) (Fin w) = Fin (min v w)" by (auto simp: np_min_def min_def)
  moreover have "Min (set (min v w # ws)) = Min (set (v # w # ws))"
    by (cases "ws = []") (simp_all add: min.assoc)
  ultimately show ?case using Cons.IH [of "min v w"] by simp
qed

lemma series_max_Fin:
  assumes "xs \<noteq> []"
  shows "series_max (map Fin xs) = Fin (Max (set xs))"
proof -
  obtain v vs where xs: "xs = v # vs"
    using assms by (cases xs) auto
  have "series_max (map Fin xs) = foldl np_max (Fin v) (map Fin vs)"
    unfolding series_max_def dropna_Fin by (simp add: xs)
  then show ?thesis
    by (simp only: foldl_np_max_Fin xs)
qed

lemma series_min_Fin:
  assumes "xs \<noteq> []"
  shows "series_min (map Fin xs) = Fin (Min (set xs))"
proof -
  obtain v vs where xs: "xs = v # vs"
    using assms by (cases xs) auto
  have "series_min (map Fin xs) = foldl np_min (Fin v) (map Fin vs)"
    unfolding series_min_def dropna_Fin by (simp add: xs)
  then show ?thesis
    by (simp only: foldl_np_min_Fin xs)
qed

lemma return_series_example: "return_series [100, 110, 99] = [1 / 10, - 1 / 10]"
  by (simp add: return_series_def upt_conv_Cons)

text \<open>
  Claim C3, as stated: on every price series with at least two points the volatility
  is the sample standard deviation of the returns times \<open>sqrt 252\<close>.  Two prices give
  one return, whose sample standard deviation has the divisor zero: the volatility
  is \<open>nan\<close>.  And a price of zero gives an infinite return.
\<close>

theorem two_prices_volatility_nan:
  "fst (price_movement_statistics [100, 110]) = NaN
   \<and> fst (price_movement_statistics [100, 110])
       \<noteq> Fin (sample_std (return_series [100, 110]) * sqrt 252)
   \<and> price_movement_statistics [0, 100, 110] = (NaN, PInf, PInf, Fin (1 / 10))"
  by (simp add: price_movement_statistics_def Let_def dropna_def series_std_def
      series_mean_def series_max_def series_min_def np_sub_def np_sum_def np_max_def
      np_min_def inf_of_sign_def)

text \<open>
  Claim C3, amended.  For every series of at least two prices, none of them zero,
  with the daily returns \<open>price[i] / price[i-1] - 1\<close>: the average daily move is the
  mean of the absolute returns, the largest daily gain is the maximum return and the
  largest daily loss is the minimum return; the volatility is the sample standard
  deviation (divisor \<open>n - 1\<close>) of the returns times \<open>sqrt 252\<close> when there are at least
  three prices, and \<open>nan\<close> when there are two.
\<close>

theorem statistics_of_returns:
  assumes "2 \<le> length closes" "0 \<notin> set closes"
  shows "price_movement_statistics closes
           = (if length closes = 2 then NaN
              else Fin (sample_std (return_series closes) * sqrt 252),
              Fin (mean (map abs (return_series closes))),
              Fin (Max (set (return_series closes))),
              Fin (Min (set (return_series closes))))"
proof -
  let ?rs = "return_series closes"
  have r: "dropna (pct_change closes) = map Fin ?rs"
    using assms(2) by (rule pct_change_nth)
  have ne: "?rs \<noteq> []"
    using assms(1) length_return_series [of closes] by auto
  have sd: "np_mul (series_std (map Fin ?rs)) (np_sqrt (Fin 252))
              = (if length closes = 2 then NaN else Fin (sample_std ?rs * sqrt 252))"
  proof (cases "length closes = 2")
    case True
    then have "length ?rs = 1" by (simp add: length_return_series)
    then show ?thesis using True by (simp add: series_std_def dropna_Fin Let_def)
  next
    case False
    then have "2 \<le> length ?rs" using assms(1) by (simp add: length_return_series)
    then show ?thesis using False by (simp add: series_std_Fin)
  qed
  show ?thesis
    unfolding price_movement_statistics_def Let_def r sd
    using ne by (simp add: series_mean_abs_Fin series_max_Fin series_min_Fin del: map_map)
qed

theorem statistics_of_returns_witness:
  "2 \<le> length [100, 110, 99 :: real] \<and> 0 \<notin> set [100, 110, 99 :: real]
   \<and> price_movement_statistics [100, 110, 99]
       = (Fin (sample_std [1 / 10, - 1 / 10] * sqrt 252),
          Fin (1 / 10), Fin (1 / 10), Fin (- 1 / 10))"
  using statistics_of_returns [of "[100, 110, 99]"]
  by (simp add: return_series_example mean_def)

end
